theory Spec2Isabelle
  imports Complex_Main "HOL-Library.Sublist"
begin

section \<open>The D&D command-line client (\<^verbatim>\<open>ai_dm_app/cli_client.py\<close>)\<close>

text \<open>
  The client is a Python class \<^verbatim>\<open>DnDClient\<close> with three identity attributes and five
  methods that talk to a remote service through the \<^verbatim>\<open>requests\<close> library, and a
  \<^verbatim>\<open>main\<close> function with a read-evaluate loop. The embedding keeps the attributes
  in a record, passes the outside world (network, clock, terminal) as an explicit state,
  and returns a raised exception as the left summand of the result.
\<close>

subsection \<open>Python values\<close>

text \<open>
  What \<^verbatim>\<open>response.json()\<close> can return, and what an attribute of the client can hold.
  A JSON object is kept as the association list of the parsed \<^verbatim>\<open>dict\<close> (looked up
  with \<open>map_of\<close>). Strings inside JSON values are byte strings (UTF-8); the markers
  the code compares them with are ASCII. \<open>PFloat\<close> is a JSON number that is not an integer; the code looks at
  nothing of it but whether it is zero.
\<close>

datatype pyval =
    PNone
  | PBool bool
  | PInt int
  | PFloat real
  | PStr string
  | PList "pyval list"
  | PDict "(string \<times> pyval) list"

text \<open>Python's truth value of an object (\<^verbatim>\<open>bool(x)\<close>), used by \<^verbatim>\<open>not x\<close>,
  \<^verbatim>\<open>all([...])\<close> and \<^verbatim>\<open>if x:\<close>.\<close>

fun py_truthy :: "pyval \<Rightarrow> bool" where
  "py_truthy PNone = False"
| "py_truthy (PBool b) = b"
| "py_truthy (PInt i) = (i \<noteq> 0)"
| "py_truthy (PFloat x) = (x \<noteq> 0)"
| "py_truthy (PStr s) = (s \<noteq> [])"
| "py_truthy (PList xs) = (xs \<noteq> [])"
| "py_truthy (PDict kvs) = (kvs \<noteq> [])"

text \<open>The exceptions that occur in the modelled code. \<open>RequestException\<close> stands for
  the class \<^verbatim>\<open>requests.RequestException\<close> and all of its subclasses
  (\<^verbatim>\<open>ConnectionError\<close>, \<^verbatim>\<open>Timeout\<close>, \<^verbatim>\<open>HTTPError\<close>, \<^verbatim>\<open>JSONDecodeError\<close>).\<close>

datatype exc =
    RequestException
  | KeyError
  | TypeError
  | AttributeError
  | ValueError
  | EOFError
  | KeyboardInterrupt

text \<open>\<^verbatim>\<open>v[key]\<close> with a string key: only a \<^verbatim>\<open>dict\<close> can answer; a missing key raises
  \<^verbatim>\<open>KeyError\<close>, every other kind of value raises \<^verbatim>\<open>TypeError\<close>.\<close>

fun py_subscript :: "pyval \<Rightarrow> string \<Rightarrow> exc + pyval" where
  "py_subscript (PDict kvs) k = (case map_of kvs k of None \<Rightarrow> Inl KeyError | Some v \<Rightarrow> Inr v)"
| "py_subscript v k = Inl TypeError"

text \<open>\<^verbatim>\<open>v.get(key, default)\<close>: a method of \<^verbatim>\<open>dict\<close> only; any other value raises
  \<^verbatim>\<open>AttributeError\<close>.\<close>

fun py_get :: "pyval \<Rightarrow> string \<Rightarrow> pyval \<Rightarrow> exc + pyval" where
  "py_get (PDict kvs) k d = (case map_of kvs k of None \<Rightarrow> Inr d | Some v \<Rightarrow> Inr v)"
| "py_get v k d = Inl AttributeError"

subsection \<open>Strings: \<^verbatim>\<open>replace\<close>, \<^verbatim>\<open>strip\<close>, \<^verbatim>\<open>lower\<close>\<close>

text \<open>\<^verbatim>\<open>s.replace(old, new)\<close> for a non-empty \<^verbatim>\<open>old\<close>: a scan from the left that
  replaces each match and continues behind it.\<close>

function replace_scan :: "string \<Rightarrow> string \<Rightarrow> string \<Rightarrow> string" where
  "replace_scan old new [] = []"
| "replace_scan old new (x # xs) =
     (if old \<noteq> [] \<and> prefix old (x # xs)
      then new @ replace_scan old new (drop (length old) (x # xs))
      else x # replace_scan old new xs)"
  by pat_completeness auto
termination
  by (relation "measure (\<lambda>(old, new, s). length s)") (auto simp: neq_Nil_conv)

text \<open>With an empty \<^verbatim>\<open>old\<close>, Python puts \<^verbatim>\<open>new\<close> before every character and at the end.\<close>

definition str_replace :: "string \<Rightarrow> string \<Rightarrow> string \<Rightarrow> string" where
  "str_replace s old new =
     (if old = [] then new @ concat (map (\<lambda>c. c # new) s) else replace_scan old new s)"

text \<open>\<^verbatim>\<open>v.replace(old, new)\<close> on a Python value: a method of \<^verbatim>\<open>str\<close> only.\<close>

fun py_replace :: "pyval \<Rightarrow> string \<Rightarrow> string \<Rightarrow> exc + string" where
  "py_replace (PStr s) old new = Inr (str_replace s old new)"
| "py_replace v old new = Inl AttributeError"

text \<open>
  The text that \<^verbatim>\<open>input\<close> returns is a Python \<^verbatim>\<open>str\<close>, a sequence of Unicode code
  points, and \<^verbatim>\<open>strip\<close> and \<^verbatim>\<open>lower\<close> work on code points; so the text typed by the
  user is a list of code points. \<open>ascii\<close> gives the code points of an ASCII literal.
\<close>

type_synonym ustr = "nat list"

definition ascii :: "string \<Rightarrow> ustr" where
  "ascii s = map of_char s"

text \<open>The white space that \<^verbatim>\<open>str.strip()\<close> removes, that is the code points for which
  \<^verbatim>\<open>str.isspace()\<close> holds: U+0009 to U+000D, U+001C to U+0020, U+0085, U+00A0, U+1680,
  U+2000 to U+200A, U+2028, U+2029, U+202F, U+205F and U+3000.\<close>

definition is_space :: "nat \<Rightarrow> bool" where
  "is_space n =
     ((9 \<le> n \<and> n \<le> 13) \<or> (28 \<le> n \<and> n \<le> 32) \<or> n = 0x85 \<or> n = 0xA0 \<or> n = 0x1680
      \<or> (0x2000 \<le> n \<and> n \<le> 0x200A) \<or> n = 0x2028 \<or> n = 0x2029 \<or> n = 0x202F
      \<or> n = 0x205F \<or> n = 0x3000)"

definition strip :: "ustr \<Rightarrow> ustr" where
  "strip s = rev (dropWhile is_space (rev (dropWhile is_space s)))"

text \<open>
  \<^verbatim>\<open>str.lower()\<close>. The letters A to Z go to a to z. Of the code points beyond ASCII only
  the Kelvin sign U+212A has a lower case inside ASCII (the letter k), and U+0130 goes to
  the letter i followed by U+0307; the lower case of every other one has no ASCII letter
  in it and is kept here as the code point itself, which gives the same answer whenever
  the result is compared with an ASCII word.
\<close>

definition lower_char :: "nat \<Rightarrow> ustr" where
  "lower_char n =
     (if 65 \<le> n \<and> n \<le> 90 then [n + 32]
      else if n = 0x212A then [107]
      else if n = 0x130 then [105, 0x307]
      else [n])"

definition lower :: "ustr \<Rightarrow> ustr" where
  "lower s = concat (map lower_char s)"

subsection \<open>The outside world\<close>

text \<open>
  A request of the client, by endpoint; every request carries the header
  \<^verbatim>\<open>X-API-Key\<close>.
  \<^item> \<open>GetRoot\<close>: \<^verbatim>\<open>GET {server_url}\<close>
  \<^item> \<open>GetSessions cid\<close>: \<^verbatim>\<open>GET {server_url}/campaigns/{cid}/sessions\<close>
  \<^item> \<open>PostStart cid\<close>: \<^verbatim>\<open>POST {server_url}/sessions/start\<close> with \<^verbatim>\<open>{"campaign_id": cid}\<close>
  \<^item> \<open>PostInteract sid text cid wid\<close>: \<^verbatim>\<open>POST {server_url}/sessions/{sid}/interact\<close> with
    \<^verbatim>\<open>{"user_input": text, "campaign_id": cid, "world_id": wid}\<close>
  \<^item> \<open>PostEnd sid\<close>: \<^verbatim>\<open>POST {server_url}/sessions/{sid}/end\<close>
\<close>

datatype request =
    GetRoot
  | GetSessions int
  | PostStart int
  | PostInteract pyval ustr pyval pyval
  | PostEnd pyval

text \<open>The body of an HTTP response: JSON that parses to a value, or anything else.\<close>

datatype body = Json pyval | Malformed

text \<open>What \<^verbatim>\<open>requests.get\<close> or \<^verbatim>\<open>requests.post\<close> does: it raises a
  \<^verbatim>\<open>RequestException\<close> (no connection, time-out, ...) or returns a response with a
  status code and a body.\<close>

datatype http_outcome = ConnFail | Response int body

text \<open>The lines the program prints, one constructor for each \<^verbatim>\<open>print\<close> statement
  (\<open>Prompt\<close> is the prompt of \<^verbatim>\<open>input\<close>).\<close>

datatype out_line =
    CheckingServer
  | ServerRunning
  | ServerNotAvailable
  | Retrying
  | TimedOut int
  | ErrorListing
  | ErrorStarting
  | PleaseVerify
  | HintCampaign
  | HintServer
  | HintApiKey
  | NotInitialized
  | ErrorSending
  | ConnectionLost
  | ErrorEnding
  | Prompt
  | DM string
  | Interrupted
  | UnexpectedError exc
  | EndingAfterError
  | EndingSession
  | RecapHeader
  | RecapText pyval

text \<open>
  The world outside the client: \<open>net n\<close> is what the \<open>n\<close>-th request of the run
  meets and \<open>lat n\<close> the seconds it takes; \<open>calls\<close> are the requests made so far,
  \<open>now\<close> is the clock (\<^verbatim>\<open>time.time()\<close>, in whole seconds) and \<open>out\<close> the printed
  lines. Every request comes back, with a response or an exception, after finitely many
  seconds; time passes in requests and in \<^verbatim>\<open>time.sleep\<close> only.
\<close>

record world =
  net :: "nat \<Rightarrow> http_outcome"
  lat :: "nat \<Rightarrow> nat"
  calls :: "request list"
  now :: nat
  out :: "out_line list"

definition http_call :: "request \<Rightarrow> world \<Rightarrow> http_outcome \<times> world" where
  "http_call r w =
     (net w (length (calls w)),
      w\<lparr>calls := calls w @ [r], now := now w + lat w (length (calls w))\<rparr>)"

definition print_line :: "out_line \<Rightarrow> world \<Rightarrow> world" where
  "print_line l w = w\<lparr>out := out w @ [l]\<rparr>"

definition sleep :: "nat \<Rightarrow> world \<Rightarrow> world" where
  "sleep n w = w\<lparr>now := now w + n\<rparr>"

text \<open>\<^verbatim>\<open>response.raise_for_status()\<close> raises \<^verbatim>\<open>HTTPError\<close> for a status from 400 to
  599, and for no other.\<close>

definition raise_for_status :: "int \<Rightarrow> exc + unit" where
  "raise_for_status st = (if 400 \<le> st \<and> st < 600 then Inl RequestException else Inr ())"

text \<open>\<^verbatim>\<open>response.json()\<close> raises \<^verbatim>\<open>requests.exceptions.JSONDecodeError\<close>, a
  \<^verbatim>\<open>RequestException\<close> (requests 2.27 and later), when the body is not JSON.\<close>

definition json :: "body \<Rightarrow> exc + pyval" where
  "json b = (case b of Json v \<Rightarrow> Inr v | Malformed \<Rightarrow> Inl RequestException)"

text \<open>The common shape \<^verbatim>\<open>response = requests...; response.raise_for_status();
  response.json()\<close> inside a \<^verbatim>\<open>try\<close>: the parsed value, or the exception raised on
  the way.\<close>

definition checked_json :: "http_outcome \<Rightarrow> exc + pyval" where
  "checked_json r =
     (case r of
        ConnFail \<Rightarrow> Inl RequestException
      | Response st b \<Rightarrow>
          (case raise_for_status st of Inl e \<Rightarrow> Inl e | Inr _ \<Rightarrow> json b))"

subsection \<open>The client\<close>

record client =
  campaign_id :: pyval
  world_id :: pyval
  session_id :: pyval
  server_url :: string
  api_key :: string

definition DEFAULT_SERVER_URL :: string where
  "DEFAULT_SERVER_URL = ''http://127.0.0.1:5000''"

text \<open>\<^verbatim>\<open>__init__\<close>: \<open>env_key\<close> is the value of the environment variable
  \<^verbatim>\<open>DND_API_KEY\<close>. An absent or empty argument is falsy and falls back.\<close>

definition init :: "string option \<Rightarrow> string option \<Rightarrow> string option \<Rightarrow> exc + client" where
  "init url key env_key =
     (let u = (case url of Some s \<Rightarrow> if s \<noteq> [] then s else DEFAULT_SERVER_URL
                         | None \<Rightarrow> DEFAULT_SERVER_URL);
          k = (case key of Some s \<Rightarrow> if s \<noteq> [] then Some s else env_key | None \<Rightarrow> env_key)
      in case k of
           None \<Rightarrow> Inl ValueError
         | Some s \<Rightarrow>
             if s = [] then Inl ValueError
             else Inr \<lparr>campaign_id = PNone, world_id = PNone, session_id = PNone,
                       server_url = u, api_key = s\<rparr>)"

text \<open>\<^verbatim>\<open>check_server\<close> looks at no status and no body: only an exception of
  \<^verbatim>\<open>requests.get\<close> makes it return \<^verbatim>\<open>False\<close>.\<close>

definition check_server :: "client \<Rightarrow> world \<Rightarrow> bool \<times> world" where
  "check_server c w =
     (case http_call GetRoot w of
        (ConnFail, w1) \<Rightarrow> (False, w1)
      | (Response st b, w1) \<Rightarrow> (True, w1))"

text \<open>The \<^verbatim>\<open>while\<close> loop of \<^verbatim>\<open>wait_for_server\<close>; \<open>start_time\<close> is the clock when the
  method began. The loop ends because every round sleeps 5 seconds.\<close>

function wait_loop :: "client \<Rightarrow> nat \<Rightarrow> int \<Rightarrow> world \<Rightarrow> bool \<times> world" where
  "wait_loop c start_time timeout w =
     (if int (now w) - int start_time < timeout then
        (let r = check_server c w in
         if fst r then (True, print_line ServerRunning (snd r))
         else wait_loop c start_time timeout
                (sleep 5 (print_line Retrying (print_line ServerNotAvailable (snd r)))))
      else (False, print_line (TimedOut timeout) w))"
  by pat_completeness auto
termination
proof (relation "measure (\<lambda>(c, s, t, w). nat (t - (int (now w) - int s)))", goal_cases)
  case 1
  show ?case by simp
next
  case (2 c s t w r)
  have "now w \<le> now (snd (check_server c w))"
    by (simp add: check_server_def http_call_def split: http_outcome.splits)
  with 2 show ?case by (simp add: sleep_def print_line_def)
qed

definition wait_for_server :: "client \<Rightarrow> int \<Rightarrow> world \<Rightarrow> bool \<times> world" where
  "wait_for_server c timeout w =
     (let w0 = print_line CheckingServer w in wait_loop c (now w0) timeout w0)"

definition list_sessions :: "client \<Rightarrow> int \<Rightarrow> world \<Rightarrow> pyval \<times> world" where
  "list_sessions c cid w =
     (case http_call (GetSessions cid) w of (r, w1) \<Rightarrow>
        (case checked_json r of
           Inr sessions \<Rightarrow> (sessions, w1)
         | Inl e \<Rightarrow> (PList [], print_line ErrorListing w1)))"

text \<open>\<^verbatim>\<open>load_session\<close> and \<^verbatim>\<open>start_session\<close> call \<^verbatim>\<open>wait_for_server()\<close> with its
  default time-out of 30 seconds. The session id that \<^verbatim>\<open>main\<close> passes to
  \<^verbatim>\<open>load_session\<close> comes out of a JSON record, so it is any value.\<close>

definition load_session ::
  "client \<Rightarrow> pyval \<Rightarrow> int \<Rightarrow> int \<Rightarrow> world \<Rightarrow> bool \<times> client \<times> world" where
  "load_session c sid cid wid w =
     (let set_ids = c\<lparr>campaign_id := PInt cid, world_id := PInt wid, session_id := sid\<rparr>
      in case check_server c w of
           (True, w1) \<Rightarrow> (True, set_ids, w1)
         | (False, w1) \<Rightarrow>
             (case wait_for_server c 30 w1 of
                (False, w2) \<Rightarrow> (False, c, w2)
              | (True, w2) \<Rightarrow> (True, set_ids, w2)))"

text \<open>The part of \<^verbatim>\<open>start_session\<close> behind the reachability check: the two
  assignments, then the \<^verbatim>\<open>try\<close> block. A \<^verbatim>\<open>RequestException\<close> is caught; a
  \<^verbatim>\<open>KeyError\<close> or \<^verbatim>\<open>TypeError\<close> of the subscript is not.\<close>

definition start_session_create ::
  "client \<Rightarrow> int \<Rightarrow> int \<Rightarrow> world \<Rightarrow> (exc + bool) \<times> client \<times> world" where
  "start_session_create c cid wid w =
     (let c1 = c\<lparr>campaign_id := PInt cid, world_id := PInt wid\<rparr>
      in case http_call (PostStart cid) w of (r, w1) \<Rightarrow>
           (case checked_json r of
              Inl e \<Rightarrow>
                (Inr False, c1,
                 print_line HintApiKey (print_line HintServer (print_line HintCampaign
                   (print_line PleaseVerify (print_line ErrorStarting w1)))))
            | Inr v \<Rightarrow>
                (case py_subscript v ''session_id'' of
                   Inl e \<Rightarrow> (Inl e, c1, w1)
                 | Inr sid \<Rightarrow> (Inr True, c1\<lparr>session_id := sid\<rparr>, w1))))"

definition start_session ::
  "client \<Rightarrow> int \<Rightarrow> int \<Rightarrow> world \<Rightarrow> (exc + bool) \<times> client \<times> world" where
  "start_session c cid wid w =
     (case check_server c w of
        (True, w1) \<Rightarrow> start_session_create c cid wid w1
      | (False, w1) \<Rightarrow>
          (case wait_for_server c 30 w1 of
             (False, w2) \<Rightarrow> (Inr False, c, w2)
           | (True, w2) \<Rightarrow> start_session_create c cid wid w2))"

definition send_message :: "client \<Rightarrow> ustr \<Rightarrow> world \<Rightarrow> (exc + string option) \<times> world" where
  "send_message c user_input w =
     (if \<not> (py_truthy (campaign_id c) \<and> py_truthy (world_id c) \<and> py_truthy (session_id c))
      then (Inr None, print_line NotInitialized w)
      else
        case http_call (PostInteract (session_id c) user_input (campaign_id c) (world_id c)) w
        of (r, w1) \<Rightarrow>
          (case checked_json r of
             Inl e \<Rightarrow>
               (let w2 = print_line ErrorSending w1 in
                case check_server c w2 of
                  (False, w3) \<Rightarrow> (Inr None, print_line ConnectionLost w3)
                | (True, w3) \<Rightarrow> (Inr None, w3))
           | Inr v \<Rightarrow>
               (case py_get v ''dm_response'' (PStr []) of
                  Inl e \<Rightarrow> (Inl e, w1)
                | Inr t \<Rightarrow>
                    (case py_replace t ''<br>'' [CHR 0x0A] of
                       Inl e \<Rightarrow> (Inl e, w1)
                     | Inr s \<Rightarrow> (Inr (Some s), w1)))))"

text \<open>\<^verbatim>\<open>end_session\<close> assigns to no attribute; the client is returned as it was.\<close>

definition end_session :: "client \<Rightarrow> world \<Rightarrow> (exc + pyval) \<times> client \<times> world" where
  "end_session c w =
     (if \<not> py_truthy (session_id c) then (Inr PNone, c, w)
      else
        case http_call (PostEnd (session_id c)) w of (r, w1) \<Rightarrow>
          (case checked_json r of
             Inl e \<Rightarrow> (Inr PNone, c, print_line ErrorEnding w1)
           | Inr v \<Rightarrow>
               (case py_get v ''recap'' PNone of
                  Inl e \<Rightarrow> (Inl e, c, w1)
                | Inr recap \<Rightarrow> (Inr recap, c, w1))))"

subsection \<open>Sequences of operations on one client\<close>

datatype op =
    CheckServer
  | WaitForServer int
  | ListSessions int
  | LoadSession pyval int int
  | StartSession int int
  | SendMessage ustr
  | EndSession

datatype ret =
    RetBool bool
  | RetVal pyval
  | RetText "string option"
  | Raised exc

fun step :: "op \<Rightarrow> client \<times> world \<Rightarrow> ret \<times> client \<times> world" where
  "step CheckServer (c, w) = (case check_server c w of (b, w1) \<Rightarrow> (RetBool b, c, w1))"
| "step (WaitForServer t) (c, w) = (case wait_for_server c t w of (b, w1) \<Rightarrow> (RetBool b, c, w1))"
| "step (ListSessions cid) (c, w) = (case list_sessions c cid w of (v, w1) \<Rightarrow> (RetVal v, c, w1))"
| "step (LoadSession sid cid wid) (c, w) =
     (case load_session c sid cid wid w of (b, c1, w1) \<Rightarrow> (RetBool b, c1, w1))"
| "step (StartSession cid wid) (c, w) =
     (case start_session c cid wid w of
        (Inl e, c1, w1) \<Rightarrow> (Raised e, c1, w1)
      | (Inr b, c1, w1) \<Rightarrow> (RetBool b, c1, w1))"
| "step (SendMessage text) (c, w) =
     (case send_message c text w of
        (Inl e, w1) \<Rightarrow> (Raised e, c, w1)
      | (Inr r, w1) \<Rightarrow> (RetText r, c, w1))"
| "step EndSession (c, w) =
     (case end_session c w of
        (Inl e, c1, w1) \<Rightarrow> (Raised e, c1, w1)
      | (Inr v, c1, w1) \<Rightarrow> (RetVal v, c1, w1))"

text \<open>The operations one after the other, with what each returned (or raised).\<close>

fun run :: "op list \<Rightarrow> client \<times> world \<Rightarrow> ret list \<times> client \<times> world" where
  "run [] (c, w) = ([], c, w)"
| "run (x # xs) (c, w) =
     (case step x (c, w) of (r, c1, w1) \<Rightarrow>
        (case run xs (c1, w1) of (rs, c2, w2) \<Rightarrow> (r # rs, c2, w2)))"

subsection \<open>The chat loop of \<^verbatim>\<open>main\<close>\<close>

text \<open>
  What \<^verbatim>\<open>input\<close> meets, one event for each call: a line typed by the user, or an
  interrupt (\<^verbatim>\<open>KeyboardInterrupt\<close>). At the end of the input \<^verbatim>\<open>input\<close> raises
  \<^verbatim>\<open>EOFError\<close>, which \<^verbatim>\<open>except Exception\<close> catches.
\<close>

datatype input_event = Line ustr | Interrupt

text \<open>The \<^verbatim>\<open>while True\<close> loop; it returns the input it has not read and the world.
  \<^verbatim>\<open>if response:\<close> is false for \<^verbatim>\<open>None\<close> and for the empty string.\<close>

fun chat_loop :: "client \<Rightarrow> input_event list \<Rightarrow> world \<Rightarrow> input_event list \<times> world" where
  "chat_loop c [] w =
     ([], print_line EndingAfterError (print_line (UnexpectedError EOFError) (print_line Prompt w)))"
| "chat_loop c (Interrupt # rest) w = (rest, print_line Interrupted (print_line Prompt w))"
| "chat_loop c (Line l # rest) w =
     (let user_input = strip l; w0 = print_line Prompt w in
      if lower user_input \<in> set [ascii ''exit'', ascii ''quit''] then (rest, w0)
      else
        case send_message c user_input w0 of
          (Inl e, w1) \<Rightarrow> (rest, print_line EndingAfterError (print_line (UnexpectedError e) w1))
        | (Inr response, w1) \<Rightarrow>
            chat_loop c rest
              (case response of
                 None \<Rightarrow> w1
               | Some s \<Rightarrow> if s \<noteq> [] then print_line (DM s) w1 else w1))"


subsection \<open>Concrete clients and worlds\<close>

text \<open>A client as \<^verbatim>\<open>DnDClient(api_key="secret")\<close> leaves it, and one with a session.\<close>

definition fresh_client :: client where
  "fresh_client = \<lparr>campaign_id = PNone, world_id = PNone, session_id = PNone,
     server_url = DEFAULT_SERVER_URL, api_key = ''secret''\<rparr>"

definition active_client :: client where
  "active_client =
     fresh_client\<lparr>campaign_id := PInt 1, world_id := PInt 1, session_id := PInt 42\<rparr>"

text \<open>A world at time 0 in which nothing has happened yet.\<close>

definition world_of :: "(nat \<Rightarrow> http_outcome) \<Rightarrow> (nat \<Rightarrow> nat) \<Rightarrow> world" where
  "world_of f l = \<lparr>net = f, lat = l, calls = [], now = 0, out = []\<rparr>"

text \<open>No server: every request fails after 10 seconds.\<close>

definition dead_world :: world where
  "dead_world = world_of (\<lambda>n. ConnFail) (\<lambda>n. 10)"

text \<open>No server, and every request fails at once.\<close>

definition dead_world_fast :: world where
  "dead_world_fast = world_of (\<lambda>n. ConnFail) (\<lambda>n. 0)"

text \<open>A server that answers every request with status 500 and no JSON.\<close>

definition broken_world :: world where
  "broken_world = world_of (\<lambda>n. Response 500 Malformed) (\<lambda>n. 0)"

text \<open>A server that answers every request with the same JSON value and status 200.\<close>

definition json_world :: "pyval \<Rightarrow> world" where
  "json_world v = world_of (\<lambda>n. Response 200 (Json v)) (\<lambda>n. 0)"

text \<open>A server that is up (the probe is answered) and refuses every other request
  with status 404.\<close>

definition refusing_world :: world where
  "refusing_world =
     world_of (\<lambda>n. if n = 0 then Response 200 Malformed else Response 404 Malformed) (\<lambda>n. 0)"

text \<open>A server that answers every request with status 300 and the JSON list
  \<^verbatim>\<open>[1]\<close>.\<close>

definition choices_world :: world where
  "choices_world = world_of (\<lambda>n. Response 300 (Json (PList [PInt 1]))) (\<lambda>n. 0)"

subsection \<open>Notions used to state the properties\<close>

text \<open>A transport failure, as the code sees it: the \<^verbatim>\<open>try\<close> block of a method raises a
  \<^verbatim>\<open>RequestException\<close>, because the request itself failed, or the status is one that
  \<^verbatim>\<open>raise_for_status\<close> rejects, or the body is not JSON.\<close>

definition transport_failure :: "http_outcome \<Rightarrow> bool" where
  "transport_failure r =
     (case r of ConnFail \<Rightarrow> True | Response st b \<Rightarrow> (400 \<le> st \<and> st < 600) \<or> b = Malformed)"

text \<open>The shapes of the identity: nothing set, or campaign and world set (with or
  without a session id).\<close>

definition identity_shape :: "client \<Rightarrow> bool" where
  "identity_shape c =
     ((campaign_id c = PNone \<and> world_id c = PNone \<and> session_id c = PNone)
      \<or> (campaign_id c \<noteq> PNone \<and> world_id c \<noteq> PNone))"

text \<open>\<^verbatim>\<open>sep.join(segs)\<close>.\<close>

fun join :: "string \<Rightarrow> string list \<Rightarrow> string" where
  "join sep [] = []"
| "join sep [x] = x"
| "join sep (x # y # ys) = x @ sep @ join sep (y # ys)"







section \<open>Properties\<close>

subsection \<open>How the operations change the world\<close>

declare wait_loop.simps [simp del]

lemma http_call_simps [simp]:
  "fst (http_call r w) = net w (length (calls w))"
  "net (snd (http_call r w)) = net w"
  "lat (snd (http_call r w)) = lat w"
  "calls (snd (http_call r w)) = calls w @ [r]"
  "now (snd (http_call r w)) = now w + lat w (length (calls w))"
  "out (snd (http_call r w)) = out w"
  by (simp_all add: http_call_def)

lemma print_line_simps [simp]:
  "net (print_line l w) = net w"
  "lat (print_line l w) = lat w"
  "calls (print_line l w) = calls w"
  "now (print_line l w) = now w"
  "out (print_line l w) = out w @ [l]"
  by (simp_all add: print_line_def)

lemma sleep_simps [simp]:
  "net (sleep n w) = net w"
  "lat (sleep n w) = lat w"
  "calls (sleep n w) = calls w"
  "now (sleep n w) = now w + n"
  "out (sleep n w) = out w"
  by (simp_all add: sleep_def)

lemma world_of_simps [simp]:
  "net (world_of f l) = f"
  "lat (world_of f l) = l"
  "calls (world_of f l) = []"
  "now (world_of f l) = 0"
  "out (world_of f l) = []"
  by (simp_all add: world_of_def)

lemma check_server_eq:
  "check_server c w = (net w (length (calls w)) \<noteq> ConnFail, snd (http_call GetRoot w))"
  by (simp add: check_server_def http_call_def split: http_outcome.splits)

lemma check_server_simps [simp]:
  "fst (check_server c w) = (net w (length (calls w)) \<noteq> ConnFail)"
  "net (snd (check_server c w)) = net w"
  "lat (snd (check_server c w)) = lat w"
  "calls (snd (check_server c w)) = calls w @ [GetRoot]"
  "now (snd (check_server c w)) = now w + lat w (length (calls w))"
  "out (snd (check_server c w)) = out w"
  by (simp_all add: check_server_eq)

subsection \<open>The bounded wait against a server that never answers\<close>

lemma wait_loop_unreachable:
  assumes "\<forall>n. net w n = ConnFail"
  shows "fst (wait_loop c s t w) = False \<and> t \<le> int (now (snd (wait_loop c s t w))) - int s"
  using assms
proof (induction c s t w rule: wait_loop.induct)
  case (1 c s t w)
  show ?case
  proof (cases "int (now w) - int s < t")
    case True
    with 1 show ?thesis
      by (subst (1 2) wait_loop.simps) (simp add: Let_def)
  next
    case False
    then show ?thesis
      by (subst (1 2) wait_loop.simps) simp
  qed
qed

lemma wait_loop_upper:
  assumes "\<forall>n. net w n = ConnFail" "\<forall>n. int (lat w n) \<le> L"
    "int (now w) - int s < t + L + 5"
  shows "int (now (snd (wait_loop c s t w))) - int s < t + L + 5"
  using assms
proof (induction c s t w rule: wait_loop.induct)
  case (1 c s t w)
  show ?case
  proof (cases "int (now w) - int s < t")
    case True
    let ?w' = "sleep 5 (print_line Retrying (print_line ServerNotAvailable (snd (check_server c w))))"
    have l: "int (lat w (length (calls w))) \<le> L" using 1(3) by blast
    have a: "\<forall>n. net ?w' n = ConnFail" "\<forall>n. int (lat ?w' n) \<le> L"
      using 1(2,3) by simp_all
    have b: "int (now ?w') - int s < t + L + 5"
      using True l by simp
    have "int (now (snd (wait_loop c s t ?w'))) - int s < t + L + 5"
      using 1(2) by (intro 1(1)[OF True refl _ a b]) simp
    then show ?thesis
      using True 1(2) by (subst wait_loop.simps) (simp add: Let_def)
  next
    case False
    then show ?thesis
      using 1(4) by (subst wait_loop.simps) simp
  qed
qed

lemma wait_for_server_unreachable:
  assumes "\<forall>n. net w n = ConnFail"
  shows "fst (wait_for_server c t w) = False"
proof -
  have "\<forall>n. net (print_line CheckingServer w) n = ConnFail"
    using assms by simp
  from wait_loop_unreachable [OF this, of c "now (print_line CheckingServer w)" t]
  show ?thesis by (simp add: wait_for_server_def Let_def)
qed

text \<open>
  Claim C7, amended. Against a service that never becomes reachable, and for a time-out
  \<open>T\<close> that is not negative, \<^verbatim>\<open>wait_for_server\<close> terminates and returns \<^verbatim>\<open>False\<close>
  (the model has no way to raise); at least \<open>T\<close> seconds have passed by then, and fewer
  than \<open>T + L + 5\<close>, where \<open>L\<close> bounds the seconds a single probe takes. Only for
  probes that take no time (\<open>L = 0\<close>) is this the bound \<open>T + 5\<close>.
\<close>

theorem wait_for_server_timeout:
  assumes "\<forall>n. net w n = ConnFail" and "\<forall>n. int (lat w n) \<le> L" and "0 \<le> T"
  shows "fst (wait_for_server c T w) = False
         \<and> T \<le> int (now (snd (wait_for_server c T w))) - int (now w)
         \<and> int (now (snd (wait_for_server c T w))) - int (now w) < T + L + 5"
proof -
  let ?w0 = "print_line CheckingServer w"
  have n: "\<forall>n. net ?w0 n = ConnFail" and l: "\<forall>n. int (lat ?w0 n) \<le> L"
    using assms by simp_all
  have "0 \<le> int (lat w 0)" by simp
  also have "\<dots> \<le> L" using assms(2) by blast
  finally have "0 \<le> L" .
  then have s: "int (now ?w0) - int (now ?w0) < T + L + 5" using assms(3) by simp
  show ?thesis
    using wait_loop_unreachable [OF n, of c "now ?w0" T] wait_loop_upper [OF n l s, of c]
    by (simp add: wait_for_server_def Let_def)
qed

text \<open>The theorem for a time-out of 7 seconds and probes that fail at once: the wait
  is over after at least 7 and fewer than 12 seconds.\<close>

theorem wait_for_server_timeout_witness:
  "fst (wait_for_server fresh_client 7 dead_world_fast) = False
   \<and> 7 \<le> int (now (snd (wait_for_server fresh_client 7 dead_world_fast)))
           - int (now dead_world_fast)
   \<and> int (now (snd (wait_for_server fresh_client 7 dead_world_fast)))
       - int (now dead_world_fast) < 7 + 0 + 5"
  using wait_for_server_timeout [of dead_world_fast 0 7 fresh_client]
  by (simp add: dead_world_fast_def)

text \<open>A time-out of 3 seconds and probes that take 10 seconds to fail: the first probe
  ends at 10, the sleep at 15, and only then is the time-out seen, which is not before
  \<open>3 + 5\<close>. And a negative time-out of \<open>- 10\<close> seconds: the loop body never runs, no
  time passes, and 0 is not below \<open>- 10 + 5\<close>.\<close>

theorem wait_for_server_slow_probe:
  "fst (wait_for_server fresh_client 3 dead_world) = False
   \<and> int (now (snd (wait_for_server fresh_client 3 dead_world))) - int (now dead_world) = 15
   \<and> \<not> (int (now (snd (wait_for_server fresh_client 3 dead_world))) - int (now dead_world)
          < 3 + 5)
   \<and> fst (wait_for_server fresh_client (- 10) dead_world_fast) = False
   \<and> \<not> (int (now (snd (wait_for_server fresh_client (- 10) dead_world_fast)))
            - int (now dead_world_fast) < - 10 + 5)"
  by (simp add: wait_for_server_def dead_world_def dead_world_fast_def wait_loop.simps)

subsection \<open>The probe\<close>

text \<open>
  Claim C3, amended. \<^verbatim>\<open>check_server\<close> makes a single request to the service root and
  returns a boolean without raising: \<^verbatim>\<open>False\<close> when the request itself fails with a
  \<^verbatim>\<open>RequestException\<close>, and \<^verbatim>\<open>True\<close> for every response, whatever its status and
  body.
\<close>

theorem check_server_any_response:
  "fst (check_server c w) =
     (case net w (length (calls w)) of ConnFail \<Rightarrow> False | Response st b \<Rightarrow> True)
   \<and> calls (snd (check_server c w)) = calls w @ [GetRoot]"
  by (simp split: http_outcome.splits)

text \<open>A service that answers the probe with status 500 and a body that is not JSON
  counts as reachable.\<close>

theorem check_server_status_500:
  "net broken_world (length (calls broken_world)) = Response 500 Malformed
   \<and> fst (check_server fresh_client broken_world) = True"
  by (simp add: broken_world_def)

subsection \<open>Creating a session\<close>

text \<open>
  Claim C5. When the probe fails and the bounded wait of 30 seconds times out,
  \<^verbatim>\<open>start_session\<close> returns \<^verbatim>\<open>False\<close> and the client is as it was before the call.
\<close>

theorem start_session_unreachable:
  assumes "fst (check_server c w) = False"
    and "fst (wait_for_server c 30 (snd (check_server c w))) = False"
  shows "fst (start_session c cid wid w) = Inr False
         \<and> fst (snd (start_session c cid wid w)) = c"
proof -
  obtain b w1 where cs: "check_server c w = (b, w1)" by (cases "check_server c w")
  obtain b2 w2 where ws: "wait_for_server c 30 w1 = (b2, w2)" by (cases "wait_for_server c 30 w1")
  have "b = False" using assms(1) cs by (simp del: check_server_simps)
  moreover have "b2 = False" using assms(2) cs ws by simp
  ultimately show ?thesis
    using cs ws by (simp add: start_session_def)
qed

text \<open>With no server at all, a fresh client stays exactly as constructed.\<close>

theorem start_session_unreachable_witness:
  "fst (check_server fresh_client dead_world) = False
   \<and> fst (wait_for_server fresh_client 30 (snd (check_server fresh_client dead_world))) = False
   \<and> fst (start_session fresh_client 1 1 dead_world) = Inr False
   \<and> fst (snd (start_session fresh_client 1 1 dead_world)) = fresh_client"
proof -
  have a: "fst (check_server fresh_client dead_world) = False"
    by (simp add: dead_world_def)
  have "\<forall>n. net (snd (check_server fresh_client dead_world)) n = ConnFail"
    by (simp add: dead_world_def)
  then have b: "fst (wait_for_server fresh_client 30 (snd (check_server fresh_client dead_world)))
      = False"
    by (rule wait_for_server_unreachable)
  from a b start_session_unreachable [OF a b, of 1 1] show ?thesis by simp
qed

subsection \<open>Sending a message\<close>

text \<open>
  Claim C4. Whenever one of the three identity attributes is unset, \<^verbatim>\<open>send_message\<close>
  returns \<^verbatim>\<open>None\<close> for every input and makes no request.
\<close>

theorem send_message_not_initialized:
  assumes "campaign_id c = PNone \<or> world_id c = PNone \<or> session_id c = PNone"
  shows "send_message c user_input w = (Inr None, print_line NotInitialized w)
         \<and> calls (snd (send_message c user_input w)) = calls w"
  using assms by (auto simp: send_message_def)

text \<open>A client that has campaign and world but no session id makes no request.\<close>

theorem send_message_not_initialized_witness:
  "session_id (fresh_client\<lparr>campaign_id := PInt 1, world_id := PInt 1\<rparr>) = PNone
   \<and> fst (send_message (fresh_client\<lparr>campaign_id := PInt 1, world_id := PInt 1\<rparr>)
        (ascii ''look around'') (json_world (PDict []))) = Inr None
   \<and> calls (snd (send_message (fresh_client\<lparr>campaign_id := PInt 1, world_id := PInt 1\<rparr>)
        (ascii ''look around'') (json_world (PDict [])))) = []"
  using send_message_not_initialized
    [of "fresh_client\<lparr>campaign_id := PInt 1, world_id := PInt 1\<rparr>" "ascii ''look around''"
        "json_world (PDict [])"]
  by (simp add: fresh_client_def json_world_def)

lemma checked_json_ok:
  "\<not> (400 \<le> st \<and> st < 600) \<Longrightarrow> checked_json (Response st (Json v)) = Inr v"
  by (simp add: checked_json_def raise_for_status_def json_def)

lemma checked_json_transport_failure:
  "transport_failure r \<Longrightarrow> checked_json r = Inl RequestException"
  by (auto simp: transport_failure_def checked_json_def raise_for_status_def json_def
      split: http_outcome.splits body.splits)

subsection \<open>What \<^verbatim>\<open>replace\<close> does to the marker\<close>

lemma join_Cons: "segs \<noteq> [] \<Longrightarrow> join sep (x # segs) = x @ sep @ join sep segs"
  by (cases segs) simp_all

lemma join_Cons_head: "join sep ((x # g) # gs) = x # join sep (g # gs)"
  by (cases gs) simp_all

text \<open>The scan cuts the text at the matches: the pieces hold no match, the text is the
  pieces joined by \<open>old\<close> and the result is the same pieces joined by \<open>new\<close>.\<close>

lemma replace_scan_segments:
  assumes "old \<noteq> []"
  shows "\<exists>segs. segs \<noteq> [] \<and> (\<forall>g\<in>set segs. \<not> sublist old g)
           \<and> s = join old segs \<and> replace_scan old new s = join new segs"
  using assms
proof (induction old new s rule: replace_scan.induct)
  case (1 old new)
  have "[Nil] \<noteq> [] \<and> (\<forall>g\<in>set [Nil]. \<not> sublist old g)
      \<and> [] = join old [Nil] \<and> replace_scan old new [] = join new [Nil]"
    using 1 by simp
  then show ?case by blast
next
  case (2 old new x xs)
  show ?case
  proof (cases "prefix old (x # xs)")
    case True
    then obtain rest where rest: "x # xs = old @ rest" by (auto simp: prefix_def)
    then have d: "drop (length old) (x # xs) = rest" by simp
    from 2(1) True 2(3) d obtain segs where segs: "segs \<noteq> []" "\<forall>g\<in>set segs. \<not> sublist old g"
      "rest = join old segs" "replace_scan old new rest = join new segs"
      by auto
    have "replace_scan old new (x # xs) = new @ replace_scan old new rest"
      using True 2(3) d by (simp del: drop_Suc_Cons)
    then have "[] # segs \<noteq> [] \<and> (\<forall>g\<in>set ([] # segs). \<not> sublist old g)
      \<and> x # xs = join old ([] # segs) \<and> replace_scan old new (x # xs) = join new ([] # segs)"
      using segs 2(3) rest by (simp add: join_Cons)
    then show ?thesis by blast
  next
    case False
    from 2(2) False 2(3) obtain segs where segs: "segs \<noteq> []" "\<forall>g\<in>set segs. \<not> sublist old g"
      "xs = join old segs" "replace_scan old new xs = join new segs"
      by auto
    then obtain g gs where ggs: "segs = g # gs" by (cases segs) auto
    have p: "prefix (x # g) (x # xs)"
      using segs(3) ggs by (cases gs) simp_all
    have "\<not> sublist old (x # g)"
    proof
      assume "sublist old (x # g)"
      then have "prefix old (x # g) \<or> sublist old g" by (simp add: sublist_Cons_right)
      moreover have "\<not> sublist old g" using segs(2) ggs by simp
      ultimately have "prefix old (x # g)" by blast
      with p have "prefix old (x # xs)" by (meson prefix_order.trans)
      with False show False by simp
    qed
    then have "(x # g) # gs \<noteq> [] \<and> (\<forall>h\<in>set ((x # g) # gs). \<not> sublist old h)
      \<and> x # xs = join old ((x # g) # gs)
      \<and> replace_scan old new (x # xs) = join new ((x # g) # gs)"
      using segs ggs False by (simp add: join_Cons_head)
    then show ?thesis by blast
  qed
qed

lemma sublist_across_char:
  assumes "c \<notin> set p" and "sublist p (a @ c # b)"
  shows "sublist p a \<or> sublist p b"
  using assms
  by (induction a) (auto simp: sublist_Cons_right prefix_append prefix_Cons)

lemma join_no_marker:
  assumes "c \<notin> set p" and "\<forall>g\<in>set segs. \<not> sublist p g" and "p \<noteq> []"
  shows "\<not> sublist p (join [c] segs)"
  using assms
proof (induction segs)
  case Nil
  then show ?case by simp
next
  case (Cons g gs)
  show ?case
  proof (cases "gs = []")
    case True
    then show ?thesis using Cons.prems by simp
  next
    case False
    have "\<not> sublist p (join [c] gs)" using Cons by simp
    moreover have "\<not> sublist p g" using Cons.prems by simp
    ultimately have "\<not> sublist p (g @ c # join [c] gs)"
      using sublist_across_char [OF Cons.prems(1)] by blast
    then show ?thesis using False by (simp add: join_Cons)
  qed
qed

text \<open>
  Claim C6. With all three identity attributes set and truthy, and a response that
  passes \<^verbatim>\<open>raise_for_status\<close> and carries a JSON object whose \<^verbatim>\<open>dm_response\<close> is a
  string, \<^verbatim>\<open>send_message\<close> returns that string with every occurrence of the marker
  \<^verbatim>\<open><br>\<close> replaced by a line feed: the text is a list of marker-free pieces joined
  by the marker, the result is the same pieces joined by line feeds, and no marker is
  left in it. In particular \<^verbatim>\<open>line1<br>line2\<close> comes back as the two lines.
\<close>

theorem send_message_br:
  assumes "py_truthy (campaign_id c)" and "py_truthy (world_id c)" and "py_truthy (session_id c)"
    and "net w (length (calls w)) = Response st (Json (PDict kvs))"
    and "\<not> (400 \<le> st \<and> st < 600)"
    and "map_of kvs ''dm_response'' = Some (PStr t)"
  shows "(\<exists>segs. (\<forall>g\<in>set segs. \<not> sublist ''<br>'' g)
           \<and> t = join ''<br>'' segs
           \<and> fst (send_message c user_input w) = Inr (Some (join [CHR 0x0A] segs))
           \<and> \<not> sublist ''<br>'' (join [CHR 0x0A] segs))
         \<and> fst (send_message active_client user_input
                  (json_world (PDict [(''dm_response'', PStr ''line1<br>line2'')])))
             = Inr (Some (''line1'' @ [CHR 0x0A] @ ''line2''))"
proof -
  have r: "fst (send_message c user_input w) = Inr (Some (replace_scan ''<br>'' [CHR 0x0A] t))"
    using assms by (simp add: send_message_def http_call_def checked_json_ok str_replace_def)
  obtain segs where segs: "\<forall>g\<in>set segs. \<not> sublist ''<br>'' g" "t = join ''<br>'' segs"
    "replace_scan ''<br>'' [CHR 0x0A] t = join [CHR 0x0A] segs"
    using replace_scan_segments [of "''<br>''" t "[CHR 0x0A]"] by auto
  have "\<not> sublist ''<br>'' (join [CHR 0x0A] segs)"
    using segs(1) by (intro join_no_marker) simp_all
  with r segs have "\<exists>segs. (\<forall>g\<in>set segs. \<not> sublist ''<br>'' g)
           \<and> t = join ''<br>'' segs
           \<and> fst (send_message c user_input w) = Inr (Some (join [CHR 0x0A] segs))
           \<and> \<not> sublist ''<br>'' (join [CHR 0x0A] segs)"
    by auto
  moreover have "fst (send_message active_client user_input
                  (json_world (PDict [(''dm_response'', PStr ''line1<br>line2'')])))
             = Inr (Some (''line1'' @ [CHR 0x0A] @ ''line2''))"
    by (simp add: send_message_def active_client_def fresh_client_def json_world_def
        http_call_def checked_json_ok str_replace_def)
  ultimately show ?thesis by blast
qed

text \<open>The theorem for the active client and a reply \<^verbatim>\<open>{"dm_response": "a<br>b<br>"}\<close>.\<close>

theorem send_message_br_witness:
  "py_truthy (campaign_id active_client) \<and> py_truthy (world_id active_client)
   \<and> py_truthy (session_id active_client)
   \<and> (\<exists>segs. ''a<br>b<br>'' = join ''<br>'' segs
        \<and> fst (send_message active_client (ascii ''look'')
                 (json_world (PDict [(''dm_response'', PStr ''a<br>b<br>'')])))
            = Inr (Some (join [CHR 0x0A] segs)))
   \<and> fst (send_message active_client (ascii ''look'')
            (json_world (PDict [(''dm_response'', PStr ''a<br>b<br>'')])))
       = Inr (Some (''a'' @ [CHR 0x0A] @ ''b'' @ [CHR 0x0A]))"
proof -
  let ?w = "json_world (PDict [(''dm_response'', PStr ''a<br>b<br>'')])"
  have a: "py_truthy (campaign_id active_client)" "py_truthy (world_id active_client)"
    "py_truthy (session_id active_client)"
    by (simp_all add: active_client_def)
  have n: "net ?w (length (calls ?w))
      = Response 200 (Json (PDict [(''dm_response'', PStr ''a<br>b<br>'')]))"
    by (simp add: json_world_def)
  have s: "\<not> (400 \<le> (200::int) \<and> (200::int) < 600)" by simp
  have m: "map_of [(''dm_response'', PStr ''a<br>b<br>'')] ''dm_response''
      = Some (PStr ''a<br>b<br>'')"
    by simp
  have e: "\<exists>segs. ''a<br>b<br>'' = join ''<br>'' segs
        \<and> fst (send_message active_client (ascii ''look'') ?w) = Inr (Some (join [CHR 0x0A] segs))"
    using send_message_br [OF a n s m, of "ascii ''look''"] by blast
  have "fst (send_message active_client (ascii ''look'') ?w)
      = Inr (Some (''a'' @ [CHR 0x0A] @ ''b'' @ [CHR 0x0A]))"
    by (simp add: send_message_def active_client_def fresh_client_def json_world_def
        http_call_def checked_json_ok str_replace_def)
  with a e show ?thesis by blast
qed

text \<open>
  Claim C10. With all three identity attributes set and truthy, and a response that
  passes \<^verbatim>\<open>raise_for_status\<close> and carries a JSON object without a \<^verbatim>\<open>dm_response\<close>
  key, \<^verbatim>\<open>send_message\<close> makes its one interact request with the stripped input and
  returns the empty string, not \<^verbatim>\<open>None\<close>; the chat loop then prints nothing for that
  turn beyond its prompt and goes on to the next input.
\<close>

theorem send_message_no_dm_response:
  assumes "py_truthy (campaign_id c)" and "py_truthy (world_id c)" and "py_truthy (session_id c)"
    and "net w (length (calls w)) = Response st (Json (PDict kvs))"
    and "\<not> (400 \<le> st \<and> st < 600)"
    and "map_of kvs ''dm_response'' = None"
    and "lower (strip l) \<notin> set [ascii ''exit'', ascii ''quit'']"
  shows "fst (send_message c (strip l) (print_line Prompt w)) = Inr (Some [])
     \<and> calls (snd (send_message c (strip l) (print_line Prompt w)))
         = calls w @ [PostInteract (session_id c) (strip l) (campaign_id c) (world_id c)]
     \<and> out (snd (send_message c (strip l) (print_line Prompt w))) = out w @ [Prompt]
     \<and> chat_loop c (Line l # rest) w
         = chat_loop c rest (snd (send_message c (strip l) (print_line Prompt w)))"
proof -
  have "send_message c (strip l) (print_line Prompt w) =
      (Inr (Some []),
       snd (http_call (PostInteract (session_id c) (strip l) (campaign_id c) (world_id c))
              (print_line Prompt w)))"
    using assms(1-6)
    by (simp add: send_message_def http_call_def checked_json_ok str_replace_def)
  then show ?thesis using assms(7) by (simp add: Let_def)
qed

text \<open>The theorem for the active client, the input \<^verbatim>\<open>look\<close> and a reply \<^verbatim>\<open>{}\<close>.\<close>

theorem send_message_no_dm_response_witness:
  "py_truthy (campaign_id active_client) \<and> py_truthy (world_id active_client)
   \<and> py_truthy (session_id active_client)
   \<and> lower (strip (ascii ''look'')) \<notin> set [ascii ''exit'', ascii ''quit'']
   \<and> fst (send_message active_client (strip (ascii ''look'')) (print_line Prompt (json_world (PDict []))))
       = Inr (Some [])
   \<and> calls (snd (send_message active_client (strip (ascii ''look''))
            (print_line Prompt (json_world (PDict [])))))
       = [PostInteract (PInt 42) (ascii ''look'') (PInt 1) (PInt 1)]
   \<and> out (snd (send_message active_client (strip (ascii ''look''))
            (print_line Prompt (json_world (PDict []))))) = [Prompt]
   \<and> chat_loop active_client [Line (ascii ''look'')] (json_world (PDict []))
       = chat_loop active_client []
           (snd (send_message active_client (strip (ascii ''look''))
              (print_line Prompt (json_world (PDict [])))))"
proof -
  let ?w = "json_world (PDict [])"
  have a: "py_truthy (campaign_id active_client)" "py_truthy (world_id active_client)"
    "py_truthy (session_id active_client)"
    by (simp_all add: active_client_def)
  have n: "net ?w (length (calls ?w)) = Response 200 (Json (PDict []))"
    by (simp add: json_world_def)
  have s: "\<not> (400 \<le> (200::int) \<and> (200::int) < 600)" by simp
  have m: "map_of ([] :: (string \<times> pyval) list) ''dm_response'' = None" by simp
  have q: "lower (strip (ascii ''look'')) \<notin> set [ascii ''exit'', ascii ''quit'']"
    by (simp add: lower_def strip_def is_space_def lower_char_def ascii_def)
  have i: "session_id active_client = PInt 42" "campaign_id active_client = PInt 1"
    "world_id active_client = PInt 1"
    by (simp_all add: active_client_def)
  have t: "strip (ascii ''look'') = ascii ''look''"
    by (simp add: strip_def is_space_def ascii_def)
  from a q send_message_no_dm_response [OF a n s m q, of "[]"] show ?thesis
    by (simp add: json_world_def i t)
qed

subsection \<open>Listing sessions\<close>

text \<open>
  Claim C8, amended. \<^verbatim>\<open>list_sessions\<close> makes one request and lets no
  \<^verbatim>\<open>RequestException\<close> out: when the request fails, when the status is from 400 to 599
  or when the body is not JSON, it returns the empty list; for every other status
  (2xx, but 1xx and 3xx as well) with a JSON body it returns the parsed value as it is.
\<close>

theorem list_sessions_result:
  "fst (list_sessions c cid w) =
     (case net w (length (calls w)) of
        ConnFail \<Rightarrow> PList []
      | Response st b \<Rightarrow>
          (case b of
             Malformed \<Rightarrow> PList []
           | Json sessions \<Rightarrow> if 400 \<le> st \<and> st < 600 then PList [] else sessions))
   \<and> calls (snd (list_sessions c cid w)) = calls w @ [GetSessions cid]"
  by (auto simp: list_sessions_def http_call_def checked_json_def raise_for_status_def json_def
      split: http_outcome.splits body.splits)

text \<open>\<^verbatim>\<open>list_sessions(5)\<close> against a service that returns one record with session id
  42: the result is that one record.\<close>

theorem list_sessions_example:
  "fst (list_sessions fresh_client 5
     (json_world (PList [PDict [(''session_id'', PInt 42),
                                (''created_at'', PStr ''2024-01-01T00:00:00Z'')]])))
   = PList [PDict [(''session_id'', PInt 42), (''created_at'', PStr ''2024-01-01T00:00:00Z'')]]
   \<and> py_subscript
        (PDict [(''session_id'', PInt 42), (''created_at'', PStr ''2024-01-01T00:00:00Z'')])
        ''session_id'' = Inr (PInt 42)"
  using list_sessions_result [of fresh_client 5
     "json_world (PList [PDict [(''session_id'', PInt 42),
                                (''created_at'', PStr ''2024-01-01T00:00:00Z'')]])"]
  by (simp add: json_world_def)

text \<open>A reply with the status 300, which is not a success status, and a JSON body:
  the body is returned, not the empty list.\<close>

theorem list_sessions_status_300:
  "net choices_world (length (calls choices_world)) = Response 300 (Json (PList [PInt 1]))
   \<and> fst (list_sessions fresh_client 5 choices_world) = PList [PInt 1]
   \<and> fst (list_sessions fresh_client 5 choices_world) \<noteq> PList []"
  by (simp add: list_sessions_def http_call_def checked_json_def raise_for_status_def json_def
      choices_world_def)

subsection \<open>Ending a session\<close>

lemma end_session_client: "fst (snd (end_session c w)) = c"
  by (simp add: end_session_def split: prod.splits sum.splits)

lemma end_session_calls:
  "calls (snd (snd (end_session c w))) =
     (if py_truthy (session_id c) then calls w @ [PostEnd (session_id c)] else calls w)"
  by (simp add: end_session_def http_call_def split: prod.splits sum.splits)

text \<open>
  Claim C1, amended. \<^verbatim>\<open>end_session\<close> leaves the client, and so the identity, as it
  was, whether or not a recap comes back. Two calls in a row with a truthy session id
  therefore make two end requests for the same session; with an unset (or falsy)
  session id neither call makes a request.
\<close>

theorem end_session_keeps_identity:
  "fst (snd (run [EndSession, EndSession] (c, w))) = c
   \<and> calls (snd (snd (run [EndSession, EndSession] (c, w)))) =
       (if py_truthy (session_id c)
        then calls w @ [PostEnd (session_id c), PostEnd (session_id c)] else calls w)"
proof -
  obtain r1 c1 w1 where e1: "end_session c w = (r1, c1, w1)" by (cases "end_session c w")
  obtain r2 c2 w2 where e2: "end_session c1 w1 = (r2, c2, w2)" by (cases "end_session c1 w1")
  have c1: "c1 = c" using end_session_client [of c w] e1 by simp
  have c2: "c2 = c" using end_session_client [of c1 w1] e2 c1 by simp
  have k1: "calls w1 =
      (if py_truthy (session_id c) then calls w @ [PostEnd (session_id c)] else calls w)"
    using end_session_calls [of c w] e1 by simp
  have k2: "calls w2 =
      (if py_truthy (session_id c) then calls w1 @ [PostEnd (session_id c)] else calls w1)"
    using end_session_calls [of c1 w1] e2 c1 by simp
  show ?thesis
    using e1 e2 c1 c2 k1 k2 by (simp split: sum.splits)
qed

text \<open>The theorem for the active client and no server: both calls try to reach it.\<close>

theorem end_session_keeps_identity_witness:
  "fst (snd (run [EndSession, EndSession] (active_client, dead_world))) = active_client
   \<and> calls (snd (snd (run [EndSession, EndSession] (active_client, dead_world)))) =
        [PostEnd (PInt 42), PostEnd (PInt 42)]"
  using end_session_keeps_identity [of active_client dead_world]
  by (simp add: active_client_def dead_world_def)

text \<open>Two calls in a row against a service that returns a recap: the second call
  returns the recap again, the session id is still 42, and two requests were made.\<close>

theorem end_session_twice_example:
  "fst (run [EndSession, EndSession]
          (active_client, json_world (PDict [(''recap'', PStr ''The end.'')])))
     = [RetVal (PStr ''The end.''), RetVal (PStr ''The end.'')]
   \<and> session_id (fst (snd (run [EndSession, EndSession]
        (active_client, json_world (PDict [(''recap'', PStr ''The end.'')]))))) = PInt 42
   \<and> calls (snd (snd (run [EndSession, EndSession]
        (active_client, json_world (PDict [(''recap'', PStr ''The end.'')])))))
       = [PostEnd (PInt 42), PostEnd (PInt 42)]"
  by (simp add: end_session_def active_client_def fresh_client_def json_world_def world_of_def
      http_call_def checked_json_def raise_for_status_def json_def)

subsection \<open>The shape of the identity\<close>

lemma init_fresh_client: "init None (Some ''secret'') None = Inr fresh_client"
  by (simp add: init_def fresh_client_def)

lemma load_session_shape:
  "load_session c sid cid wid w = (b, c', w') \<Longrightarrow>
     c' = c \<or> c' = c\<lparr>campaign_id := PInt cid, world_id := PInt wid, session_id := sid\<rparr>"
  by (auto simp: load_session_def Let_def split: prod.splits bool.splits)

lemma start_session_create_shape:
  "start_session_create c cid wid w = (r, c', w') \<Longrightarrow>
     c' = c\<lparr>campaign_id := PInt cid, world_id := PInt wid\<rparr>
     \<or> (\<exists>sid. c' = c\<lparr>campaign_id := PInt cid, world_id := PInt wid, session_id := sid\<rparr>)"
  by (auto simp: start_session_create_def Let_def split: prod.splits sum.splits)

lemma start_session_shape:
  "start_session c cid wid w = (r, c', w') \<Longrightarrow>
     c' = c \<or> c' = c\<lparr>campaign_id := PInt cid, world_id := PInt wid\<rparr>
     \<or> (\<exists>sid. c' = c\<lparr>campaign_id := PInt cid, world_id := PInt wid, session_id := sid\<rparr>)"
  by (auto simp: start_session_def split: prod.splits bool.splits
      dest: start_session_create_shape)

lemma step_shape:
  assumes "identity_shape c" and "step x (c, w) = (r, c', w')"
  shows "identity_shape c'"
proof (cases x)
  case (LoadSession sid cid wid)
  then show ?thesis
    using assms by (auto simp: identity_shape_def split: prod.splits dest!: load_session_shape)
next
  case (StartSession cid wid)
  then show ?thesis
    using assms
    by (auto simp: identity_shape_def split: prod.splits sum.splits dest!: start_session_shape)
next
  case EndSession
  then show ?thesis
    using assms end_session_client [of c w] by (auto split: prod.splits sum.splits)
qed (use assms in \<open>auto split: prod.splits sum.splits\<close>)

lemma run_shape:
  "identity_shape c \<Longrightarrow> identity_shape (fst (snd (run ops (c, w))))"
proof (induction ops arbitrary: c w)
  case Nil
  then show ?case by simp
next
  case (Cons x xs)
  obtain r c1 w1 where s: "step x (c, w) = (r, c1, w1)" by (cases "step x (c, w)")
  have "identity_shape c1" using Cons.prems s by (rule step_shape)
  from Cons.IH [OF this, of w1] show ?case
    using s by (auto split: prod.splits)
qed

lemma start_session_create_fails:
  assumes "transport_failure (net w (length (calls w)))"
  shows "fst (start_session_create c cid wid w) = Inr False
     \<and> fst (snd (start_session_create c cid wid w))
         = c\<lparr>campaign_id := PInt cid, world_id := PInt wid\<rparr>"
  using checked_json_transport_failure [OF assms]
  by (simp add: start_session_create_def http_call_def Let_def)

text \<open>
  Claim C2, amended. After every sequence of operations on a client that starts with no
  identity, either all three attributes are unset or campaign id and world id are both
  set; the session id is never set without them, but it may be unset while they are set.
  That is what a failed create leaves: when the probe succeeds and the create request
  meets a transport failure, \<^verbatim>\<open>start_session\<close> returns \<^verbatim>\<open>False\<close> with campaign id and
  world id set to its arguments and the session id as it was.
\<close>

theorem identity_after_operations:
  assumes "campaign_id c = PNone" and "world_id c = PNone" and "session_id c = PNone"
  shows "identity_shape (fst (snd (run ops (c, w))))
     \<and> (fst (check_server c w) \<and> transport_failure (net w (Suc (length (calls w))))
        \<longrightarrow> fst (start_session c cid wid w) = Inr False
          \<and> fst (snd (start_session c cid wid w))
              = c\<lparr>campaign_id := PInt cid, world_id := PInt wid\<rparr>)"
proof -
  have "identity_shape c" using assms by (simp add: identity_shape_def)
  then have inv: "identity_shape (fst (snd (run ops (c, w))))" by (rule run_shape)
  have "fst (start_session c cid wid w) = Inr False
          \<and> fst (snd (start_session c cid wid w))
              = c\<lparr>campaign_id := PInt cid, world_id := PInt wid\<rparr>"
    if up: "fst (check_server c w)"
      and tf: "transport_failure (net w (Suc (length (calls w))))"
  proof -
    obtain w1 where cs: "check_server c w = (True, w1)"
      using up by (cases "check_server c w") (simp del: check_server_simps)
    have "net w1 = net w" "calls w1 = calls w @ [GetRoot]"
      using check_server_simps(2,4) [of c w] cs by simp_all
    then have "transport_failure (net w1 (length (calls w1)))" using tf by simp
    from start_session_create_fails [OF this, of c cid wid] show ?thesis
      using cs by (simp add: start_session_def)
  qed
  with inv show ?thesis by blast
qed

text \<open>The theorem for a fresh client and a service that answers the probe and refuses
  the create request with status 404.\<close>

theorem identity_after_operations_witness:
  "campaign_id fresh_client = PNone \<and> world_id fresh_client = PNone
   \<and> session_id fresh_client = PNone
   \<and> fst (check_server fresh_client refusing_world)
   \<and> transport_failure (net refusing_world (Suc (length (calls refusing_world))))
   \<and> identity_shape (fst (snd (run [StartSession 1 1] (fresh_client, refusing_world))))
   \<and> fst (start_session fresh_client 1 1 refusing_world) = Inr False
   \<and> fst (snd (start_session fresh_client 1 1 refusing_world))
       = fresh_client\<lparr>campaign_id := PInt 1, world_id := PInt 1\<rparr>"
proof -
  have a: "campaign_id fresh_client = PNone" "world_id fresh_client = PNone"
    "session_id fresh_client = PNone"
    by (simp_all add: fresh_client_def)
  have b: "fst (check_server fresh_client refusing_world)
      \<and> transport_failure (net refusing_world (Suc (length (calls refusing_world))))"
    by (simp add: refusing_world_def transport_failure_def)
  from a b identity_after_operations [OF a, of "[StartSession 1 1]" refusing_world 1 1]
  show ?thesis by blast
qed

text \<open>After the failed create the campaign id and the world id are 1 and the session
  id is unset: the identity is neither fully unset nor fully set.\<close>

theorem start_session_partial_identity:
  "fst (run [StartSession 1 1] (fresh_client, refusing_world)) = [RetBool False]
   \<and> campaign_id (fst (snd (run [StartSession 1 1] (fresh_client, refusing_world)))) = PInt 1
   \<and> world_id (fst (snd (run [StartSession 1 1] (fresh_client, refusing_world)))) = PInt 1
   \<and> session_id (fst (snd (run [StartSession 1 1] (fresh_client, refusing_world)))) = PNone"
  by (simp add: start_session_def start_session_create_def check_server_def http_call_def
      refusing_world_def world_of_def fresh_client_def checked_json_def raise_for_status_def
      Let_def)

subsection \<open>The chat loop\<close>














end
